theory Spec2Isabelle
  imports Main "HOL-Library.AList"
begin

section \<open>Data model of the flight-router-state walk\<close>

text \<open>
  A \<open>Segment\<close> of the router is either a plain string or the triple
  \<open>[paramName, paramValue, paramType]\<close> of a dynamic segment.
\<close>

datatype segment = SegStr string | SegDyn string string string

text \<open>
  \<open>modules\<close> of a loader-tree node. A module is a pair \<open>[getModule, filePath]\<close>; only
  its presence and its file path are read by the walk, so a module is its file path
  and an absent module is \<open>None\<close>.
\<close>

record modules =
  layout :: "string option"
  loading :: "string option"

text \<open>
  \<open>LoaderTree = [segment, parallelRoutes, modules]\<close>. The object \<open>parallelRoutes\<close> is
  an association list in the order of \<open>Object.keys\<close>; the keys of an object are
  distinct.
\<close>

datatype loader_tree =
  LoaderTree string "(string \<times> loader_tree) list" modules

text \<open>
  \<open>FlightRouterState = [segment, parallelRoutes, url?, refresh?, isRootLayout?]\<close>; the
  walk reads positions 0, 1 and 3. Indexing \<open>parallelRoutes\<close> with a key it does not
  hold gives \<open>undefined\<close>, here \<open>None\<close> of \<open>map_of\<close>.
\<close>

datatype router_state =
  FlightRouterState segment "(string \<times> router_state) list"
    "string option" "string option" "bool option"

fun frs_segment :: "router_state \<Rightarrow> segment" where
  "frs_segment (FlightRouterState s prs url refresh isRoot) = s"

fun frs_parallelRoutes :: "router_state \<Rightarrow> (string \<times> router_state) list" where
  "frs_parallelRoutes (FlightRouterState s prs url refresh isRoot) = prs"

fun frs_refresh :: "router_state \<Rightarrow> string option" where
  "frs_refresh (FlightRouterState s prs url refresh isRoot) = refresh"

text \<open>Values of route parameters: a string or an ordered sequence of strings.\<close>

datatype param_value = ParamStr string | ParamArr "string list"

text \<open>
  The params bag is a JavaScript object: an association list, where
  \<open>{...parentParams, [k]: v}\<close> is \<^const>\<open>AList.update\<close> (an existing key keeps its
  place and takes the new value, a new key is appended).
\<close>

type_synonym params = "(string \<times> param_value) list"

text \<open>
  The result of \<open>getDynamicParamFromSegment\<close>: \<open>{param, value, treeSegment}\<close>, where
  \<open>value\<close> may be \<open>null\<close> (an optional dynamic segment).
\<close>

record dynamic_param =
  param :: string
  paramValue :: "param_value option"
  treeSegment :: segment

text \<open>Opaque values that the walk only forwards.\<close>

datatype seed_data = CacheNodeSeedData string

datatype react_node = ReactNode string

text \<open>
  A \<open>FlightDataPath\<close> is a flat heterogeneous array
  \<open>[segment, parallelRouteKey, ..., segment, routerState, seedData, head, false]\<close>, whose
  last five elements are the \<open>FlightDataSegment\<close>.
\<close>

datatype path_elem =
    PSegment segment
  | PKey string
  | PRouterState router_state
  | PSeedData "seed_data option"
  | PHead "react_node option"
  | PBool bool

type_synonym flight_data_path = "path_elem list"

text \<open>
  Errors. \<open>Thrown\<close> is whatever the component-tree renderer throws or rejects with;
  \<open>TypeError\<close> is the engine's error for reading a property of \<open>undefined\<close>.
\<close>

datatype error = Thrown string | TypeError

text \<open>
  The three injected-asset sets are mutable \<open>Set\<close> objects passed by reference. A
  reference is an address; the heap maps addresses to the contents of the sets, and
  \<open>nextAddr\<close> is the next unused address.
\<close>

type_synonym addr = nat

record heap =
  store :: "addr \<Rightarrow> string set"
  nextAddr :: addr

text \<open>The arguments of one call of the walk, except the loader tree.\<close>

record walk_args =
  parentParams :: params
  flightRouterState :: "router_state option"
  parentRendered :: bool
  rscPayloadHead :: "react_node option"
  injectedCSS :: addr
  injectedJS :: addr
  injectedFontPreloadTags :: addr
  rootLayoutIncluded :: bool

text \<open>The arguments the walk gives to \<open>createComponentTree\<close>.\<close>

record component_tree_args =
  cct_loaderTree :: loader_tree
  cct_parentParams :: params
  cct_injectedCSS :: addr
  cct_injectedJS :: addr
  cct_injectedFontPreloadTags :: addr
  cct_rootLayoutIncluded :: bool
  cct_authInterrupts :: bool

text \<open>
  The request context \<open>ctx\<close> and the imported collaborators, whose sources are outside
  the walk; they are parameters of the model. \<open>getMetadataReady\<close> and
  \<open>preloadCallbacks\<close> are handed on unchanged and never read, and are left out.
  The two asset collectors mutate the sets they are given: the model gives them the
  contents and takes the new contents back. The renderer is given the references and
  the heap to read them in, and returns seed data or throws; it is taken not to write
  to the sets it is given.
\<close>

record env =
  isRoutePPREnabled :: bool
  authInterrupts :: bool
  isPrefetch :: bool
  isRouteTreePrefetchRequest :: bool
  query :: "(string \<times> string) list"
  DEFAULT_SEGMENT_KEY :: string
  getDynamicParamFromSegment :: "string \<Rightarrow> dynamic_param option"
  matchSegment :: "segment \<Rightarrow> segment \<Rightarrow> bool"
  canSegmentBeOverridden :: "segment \<Rightarrow> segment \<Rightarrow> bool"
  addSearchParamsIfPageSegment :: "segment \<Rightarrow> (string \<times> string) list \<Rightarrow> segment"
  createFlightRouterStateFromLoaderTree ::
    "loader_tree \<Rightarrow> (string \<Rightarrow> dynamic_param option) \<Rightarrow> (string \<times> string) list \<Rightarrow> router_state"
  hasLoadingComponentInTree :: "loader_tree \<Rightarrow> bool"
  getLinkAndScriptTags :: "string \<Rightarrow> string set \<Rightarrow> string set \<Rightarrow> string set \<times> string set"
  getPreloadableFonts :: "string \<Rightarrow> string set \<Rightarrow> string set"
  createComponentTree :: "component_tree_args \<Rightarrow> heap \<Rightarrow> error + seed_data"

text \<open>
  What a call of the walk does besides returning: it is entered with a tree and
  arguments (the contents of the three sets at that moment are recorded with it), and
  it calls the renderer, which returns or throws. The events are no data of the
  program; they are the record of a run, in order, in which statements such as
  "the renderer is never called" or "every call below receives ..." are made.
\<close>

datatype event =
    WalkCall loader_tree walk_args "string set \<times> string set \<times> string set"
  | RenderCall component_tree_args "error + seed_data"

section \<open>The decisions of one level\<close>

fun lt_segment :: "loader_tree \<Rightarrow> string" where
  "lt_segment (LoaderTree segment parallelRoutes mods) = segment"

fun lt_parallelRoutes :: "loader_tree \<Rightarrow> (string \<times> loader_tree) list" where
  "lt_parallelRoutes (LoaderTree segment parallelRoutes mods) = parallelRoutes"

fun lt_modules :: "loader_tree \<Rightarrow> modules" where
  "lt_modules (LoaderTree segment parallelRoutes mods) = mods"

definition parallelRoutesKeys :: "loader_tree \<Rightarrow> string list" where
  "parallelRoutesKeys t = map fst (lt_parallelRoutes t)"

definition isLayout :: "loader_tree \<Rightarrow> bool" where
  "isLayout t = (layout (lt_modules t) \<noteq> None)"

definition rootLayoutAtThisLevel :: "loader_tree \<Rightarrow> walk_args \<Rightarrow> bool" where
  "rootLayoutAtThisLevel t a = (isLayout t \<and> \<not> rootLayoutIncluded a)"

definition rootLayoutIncludedAtThisLevelOrAbove :: "loader_tree \<Rightarrow> walk_args \<Rightarrow> bool" where
  "rootLayoutIncludedAtThisLevelOrAbove t a =
     (rootLayoutIncluded a \<or> rootLayoutAtThisLevel t a)"

definition segmentParam :: "env \<Rightarrow> loader_tree \<Rightarrow> dynamic_param option" where
  "segmentParam ctx t = getDynamicParamFromSegment ctx (lt_segment t)"

definition currentParams :: "env \<Rightarrow> loader_tree \<Rightarrow> walk_args \<Rightarrow> params" where
  "currentParams ctx t a =
     (case segmentParam ctx t of
        None \<Rightarrow> parentParams a
      | Some sp \<Rightarrow>
          (case paramValue sp of
             None \<Rightarrow> parentParams a
           | Some v \<Rightarrow> AList.update (param sp) v (parentParams a)))"

definition actualSegment :: "env \<Rightarrow> loader_tree \<Rightarrow> segment" where
  "actualSegment ctx t =
     addSearchParamsIfPageSegment ctx
       (case segmentParam ctx t of
          Some sp \<Rightarrow> treeSegment sp
        | None \<Rightarrow> SegStr (lt_segment t))
       (query ctx)"

definition renderComponentsOnThisLevel :: "env \<Rightarrow> loader_tree \<Rightarrow> walk_args \<Rightarrow> bool" where
  "renderComponentsOnThisLevel ctx t a =
     (case flightRouterState a of
        None \<Rightarrow> True
      | Some frs \<Rightarrow>
          \<not> matchSegment ctx (actualSegment ctx t) (frs_segment frs)
          \<or> length (parallelRoutesKeys t) = 0
          \<or> frs_refresh frs = Some ''refetch'')"

definition shouldSkipComponentTree :: "env \<Rightarrow> loader_tree \<Rightarrow> bool" where
  "shouldSkipComponentTree ctx t =
     (\<not> isRoutePPREnabled ctx
      \<and> (isRouteTreePrefetchRequest ctx
         \<or> (isPrefetch ctx
            \<and> \<not> (loading (lt_modules t) \<noteq> None)
            \<and> \<not> hasLoadingComponentInTree ctx t)))"

definition overriddenSegment :: "env \<Rightarrow> loader_tree \<Rightarrow> walk_args \<Rightarrow> segment" where
  "overriddenSegment ctx t a =
     (case flightRouterState a of
        None \<Rightarrow> actualSegment ctx t
      | Some frs \<Rightarrow>
          if canSegmentBeOverridden ctx (actualSegment ctx t) (frs_segment frs)
          then frs_segment frs
          else actualSegment ctx t)"

definition routerState :: "env \<Rightarrow> loader_tree \<Rightarrow> router_state" where
  "routerState ctx t =
     createFlightRouterStateFromLoaderTree ctx t (getDynamicParamFromSegment ctx) (query ctx)"

section \<open>Effects of one level\<close>

text \<open>\<open>new Set(src)\<close>: a new set object with the contents of \<open>src\<close>.\<close>

definition newSet :: "addr \<Rightarrow> heap \<Rightarrow> addr \<times> heap" where
  "newSet src h =
     (nextAddr h,
      h\<lparr>store := (store h)(nextAddr h := store h src), nextAddr := Suc (nextAddr h)\<rparr>)"

definition assetContents :: "walk_args \<Rightarrow> heap \<Rightarrow> string set \<times> string set \<times> string set" where
  "assetContents a h =
     (store h (injectedCSS a), store h (injectedJS a), store h (injectedFontPreloadTags a))"

definition layoutPath :: "loader_tree \<Rightarrow> string option" where
  "layoutPath t = layout (lt_modules t)"

text \<open>
  The two collector calls under \<open>if (layoutPath)\<close>: \<open>getLinkAndScriptTags\<close> writes to
  the CSS and JS sets, then \<open>getPreloadableFonts\<close> writes to the font set.
\<close>

definition collectLayoutAssets :: "env \<Rightarrow> string \<Rightarrow> addr \<times> addr \<times> addr \<Rightarrow> heap \<Rightarrow> heap" where
  "collectLayoutAssets ctx p sets h =
     (case sets of (css, js, fonts) \<Rightarrow>
        (let cj = getLinkAndScriptTags ctx p (store h css) (store h js);
             h1 = h\<lparr>store := (store h)(css := fst cj, js := snd cj)\<rparr>
         in h1\<lparr>store := (store h1)(fonts := getPreloadableFonts ctx p (store h1 fonts))\<rparr>))"

text \<open>
  The three \<open>...WithCurrentLayout\<close> sets of a level that does not render: copies of
  the sets the level received, extended with the layout's assets when \<open>layoutPath\<close> is
  truthy (a non-empty string).
\<close>

definition withCurrentLayout ::
  "env \<Rightarrow> loader_tree \<Rightarrow> walk_args \<Rightarrow> heap \<Rightarrow> (addr \<times> addr \<times> addr) \<times> heap" where
  "withCurrentLayout ctx t a h =
     (let c = newSet (injectedCSS a) h;
          j = newSet (injectedJS a) (snd c);
          f = newSet (injectedFontPreloadTags a) (snd j);
          sets = (fst c, fst j, fst f)
      in (sets,
          (case layoutPath t of
             None \<Rightarrow> snd f
           | Some p \<Rightarrow> if p \<noteq> [] then collectLayoutAssets ctx p sets (snd f) else snd f)))"

definition renderArgs :: "env \<Rightarrow> loader_tree \<Rightarrow> walk_args \<Rightarrow> component_tree_args" where
  "renderArgs ctx t a =
     \<lparr>cct_loaderTree = t,
      cct_parentParams = currentParams ctx t a,
      cct_injectedCSS = injectedCSS a,
      cct_injectedJS = injectedJS a,
      cct_injectedFontPreloadTags = injectedFontPreloadTags a,
      cct_rootLayoutIncluded = rootLayoutIncluded a,
      cct_authInterrupts = authInterrupts ctx\<rparr>"

text \<open>
  The body of \<open>if (!parentRendered && renderComponentsOnThisLevel)\<close>: one path that is
  a single \<open>FlightDataSegment\<close>, with or without rendering.
\<close>

definition leafEmission ::
  "env \<Rightarrow> loader_tree \<Rightarrow> walk_args \<Rightarrow> heap
     \<Rightarrow> (error + flight_data_path list) \<times> heap \<times> event list" where
  "leafEmission ctx t a h =
     (if shouldSkipComponentTree ctx t then
        (Inr [[PSegment (overriddenSegment ctx t a), PRouterState (routerState ctx t),
               PSeedData None, PHead None, PBool False]],
         h, [])
      else
        (case createComponentTree ctx (renderArgs ctx t a) h of
           Inl e \<Rightarrow> (Inl e, h, [RenderCall (renderArgs ctx t a) (Inl e)])
         | Inr seedData \<Rightarrow>
             (Inr [[PSegment (overriddenSegment ctx t a), PRouterState (routerState ctx t),
                    PSeedData (Some seedData), PHead (rscPayloadHead a), PBool False]],
              h, [RenderCall (renderArgs ctx t a) (Inr seedData)])))"

text \<open>The arguments of the recursive call for one parallel-route key.\<close>

definition childArgs ::
  "env \<Rightarrow> loader_tree \<Rightarrow> walk_args \<Rightarrow> addr \<times> addr \<times> addr \<Rightarrow> string \<Rightarrow> walk_args" where
  "childArgs ctx t a sets parallelRouteKey =
     \<lparr>parentParams = currentParams ctx t a,
      flightRouterState =
        (case flightRouterState a of
           None \<Rightarrow> None
         | Some frs \<Rightarrow> map_of (frs_parallelRoutes frs) parallelRouteKey),
      parentRendered = (parentRendered a \<or> renderComponentsOnThisLevel ctx t a),
      rscPayloadHead = rscPayloadHead a,
      injectedCSS = fst sets,
      injectedJS = fst (snd sets),
      injectedFontPreloadTags = snd (snd sets),
      rootLayoutIncluded = rootLayoutIncludedAtThisLevelOrAbove t a\<rparr>"

text \<open>
  \<open>subPath[0] === DEFAULT_SEGMENT_KEY\<close>: the first element is that very string. (It is
  \<open>undefined\<close> for an empty array, which is not equal to a string.)
\<close>

definition startsWithDefault :: "env \<Rightarrow> flight_data_path \<Rightarrow> bool" where
  "startsWithDefault ctx subPath =
     (case subPath of
        [] \<Rightarrow> False
      | x # _ \<Rightarrow>
          x = PSegment (SegStr (DEFAULT_SEGMENT_KEY ctx)) \<or> x = PKey (DEFAULT_SEGMENT_KEY ctx))"

text \<open>\<open>!!segment\<close>: a string is truthy when it is not empty, an array always.\<close>

fun truthySegment :: "segment \<Rightarrow> bool" where
  "truthySegment (SegStr s) = (s \<noteq> [])"
| "truthySegment (SegDyn n v ty) = True"

text \<open>
  The condition of the \<open>if\<close> that guards \<open>continue\<close>, evaluated left to right with the
  short circuit of \<open>&&\<close>. Its third conjunct reads \<open>flightRouterState[1][key][0]\<close>
  with no guard: when the router state has no entry for the key, that is a read of a
  property of \<open>undefined\<close>.
\<close>

definition suppressDefault :: "env \<Rightarrow> walk_args \<Rightarrow> string \<Rightarrow> flight_data_path \<Rightarrow> error + bool" where
  "suppressDefault ctx a parallelRouteKey subPath =
     (if \<not> startsWithDefault ctx subPath then Inr False
      else
        (case flightRouterState a of
           None \<Rightarrow> Inr False
         | Some frs \<Rightarrow>
             (case map_of (frs_parallelRoutes frs) parallelRouteKey of
                None \<Rightarrow> Inl TypeError
              | Some child \<Rightarrow>
                  Inr (truthySegment (frs_segment child)
                       \<and> frs_refresh child \<noteq> Some ''refetch''))))"

text \<open>The inner loop \<open>for (const subPath of subPaths)\<close>, pushing onto \<open>paths\<close>.\<close>

fun pushSubPaths ::
  "env \<Rightarrow> loader_tree \<Rightarrow> walk_args \<Rightarrow> string \<Rightarrow> flight_data_path list
     \<Rightarrow> flight_data_path list \<Rightarrow> error + flight_data_path list" where
  "pushSubPaths ctx t a parallelRouteKey [] paths = Inr paths"
| "pushSubPaths ctx t a parallelRouteKey (subPath # rest) paths =
     (case suppressDefault ctx a parallelRouteKey subPath of
        Inl e \<Rightarrow> Inl e
      | Inr True \<Rightarrow> pushSubPaths ctx t a parallelRouteKey rest paths
      | Inr False \<Rightarrow>
          pushSubPaths ctx t a parallelRouteKey rest
            (paths @ [PSegment (actualSegment ctx t) # PKey parallelRouteKey # subPath]))"

section \<open>The walk\<close>

text \<open>
  \<open>walkTreeWithFlightRouterState\<close> and its loop over \<open>parallelRoutesKeys\<close>. A call
  returns the resolved path list or the error the promise rejects with, together with
  the heap it leaves and the events of the call in order.
\<close>

definition entered :: "event \<Rightarrow> 'r \<times> heap \<times> event list \<Rightarrow> 'r \<times> heap \<times> event list" where
  "entered ev res = (fst res, fst (snd res), ev # snd (snd res))"

definition after :: "event list \<Rightarrow> 'r \<times> heap \<times> event list \<Rightarrow> 'r \<times> heap \<times> event list" where
  "after evs res = (fst res, fst (snd res), evs @ snd (snd res))"

function (sequential)
  walkTreeWithFlightRouterState ::
    "env \<Rightarrow> loader_tree \<Rightarrow> walk_args \<Rightarrow> heap
       \<Rightarrow> (error + flight_data_path list) \<times> heap \<times> event list"
and walkParallelRoutes ::
    "env \<Rightarrow> (string \<times> loader_tree) list \<Rightarrow> loader_tree \<Rightarrow> walk_args
       \<Rightarrow> addr \<times> addr \<times> addr \<Rightarrow> flight_data_path list \<Rightarrow> heap
       \<Rightarrow> (error + flight_data_path list) \<times> heap \<times> event list"
where
  "walkTreeWithFlightRouterState ctx (LoaderTree segment parallelRoutes mods) a h =
     entered (WalkCall (LoaderTree segment parallelRoutes mods) a (assetContents a h))
       (if \<not> parentRendered a
           \<and> renderComponentsOnThisLevel ctx (LoaderTree segment parallelRoutes mods) a
        then leafEmission ctx (LoaderTree segment parallelRoutes mods) a h
        else
          walkParallelRoutes ctx parallelRoutes (LoaderTree segment parallelRoutes mods) a
            (fst (withCurrentLayout ctx (LoaderTree segment parallelRoutes mods) a h)) []
            (snd (withCurrentLayout ctx (LoaderTree segment parallelRoutes mods) a h)))"
| "walkParallelRoutes ctx [] t a sets paths h = (Inr paths, h, [])"
| "walkParallelRoutes ctx ((parallelRouteKey, parallelRoute) # rest) t a sets paths h =
     (case walkTreeWithFlightRouterState ctx parallelRoute
             (childArgs ctx t a sets parallelRouteKey) h of
        (Inl e, h1, evs) \<Rightarrow> (Inl e, h1, evs)
      | (Inr subPaths, h1, evs) \<Rightarrow>
          (case pushSubPaths ctx t a parallelRouteKey subPaths paths of
             Inl e \<Rightarrow> (Inl e, h1, evs)
           | Inr paths1 \<Rightarrow> after evs (walkParallelRoutes ctx rest t a sets paths1 h1)))"
  by pat_completeness auto

termination
  by (relation "measure (\<lambda>x. case x of
         Inl (ctx, t, a, h) \<Rightarrow> size t
       | Inr (ctx, routes, t, a, sets, paths, h) \<Rightarrow>
           size_list (size_prod (\<lambda>_. 0) size) routes)") auto

section \<open>Reading the events of a call\<close>

fun walkCalls ::
  "event list \<Rightarrow> (loader_tree \<times> walk_args \<times> (string set \<times> string set \<times> string set)) list" where
  "walkCalls [] = []"
| "walkCalls (WalkCall t a s # es) = (t, a, s) # walkCalls es"
| "walkCalls (RenderCall r x # es) = walkCalls es"

fun renderCalls :: "event list \<Rightarrow> (component_tree_args \<times> (error + seed_data)) list" where
  "renderCalls [] = []"
| "renderCalls (WalkCall t a s # es) = renderCalls es"
| "renderCalls (RenderCall r x # es) = (r, x) # renderCalls es"

text \<open>The nodes of a loader tree, parents before children, siblings in key order.\<close>

function (sequential)
  subtrees :: "loader_tree \<Rightarrow> loader_tree list"
and subtreesOfRoutes :: "(string \<times> loader_tree) list \<Rightarrow> loader_tree list"
where
  "subtrees (LoaderTree segment parallelRoutes mods) =
     LoaderTree segment parallelRoutes mods # subtreesOfRoutes parallelRoutes"
| "subtreesOfRoutes [] = []"
| "subtreesOfRoutes ((parallelRouteKey, parallelRoute) # rest) =
     subtrees parallelRoute @ subtreesOfRoutes rest"
  by pat_completeness auto

termination
  by (relation "measure (\<lambda>x. case x of
         Inl t \<Rightarrow> size t
       | Inr routes \<Rightarrow> size_list (size_prod (\<lambda>_. 0) size) routes)") auto

section \<open>Concrete inputs\<close>

text \<open>
  A request context with simple collaborators: no dynamic segments, segments match when
  equal, a layout at path \<open>p\<close> contributes the assets \<open>p.css\<close>, \<open>p.js\<close> and
  \<open>p.woff2\<close>, and the renderer returns seed data named after the root segment of
  the slice it renders.
\<close>

definition exampleCtx :: env where
  "exampleCtx =
     \<lparr>isRoutePPREnabled = False,
      authInterrupts = False,
      isPrefetch = False,
      isRouteTreePrefetchRequest = False,
      query = [],
      DEFAULT_SEGMENT_KEY = ''__DEFAULT__'',
      getDynamicParamFromSegment = (\<lambda>s. None),
      matchSegment = (\<lambda>x y. x = y),
      canSegmentBeOverridden = (\<lambda>x y. False),
      addSearchParamsIfPageSegment = (\<lambda>s q. s),
      createFlightRouterStateFromLoaderTree =
        (\<lambda>t g q. FlightRouterState (SegStr (lt_segment t)) [] None None None),
      hasLoadingComponentInTree = (\<lambda>t. False),
      getLinkAndScriptTags =
        (\<lambda>p css js. (insert (p @ ''.css'') css, insert (p @ ''.js'') js)),
      getPreloadableFonts = (\<lambda>p fonts. insert (p @ ''.woff2'') fonts),
      createComponentTree =
        (\<lambda>args h. Inr (CacheNodeSeedData (lt_segment (cct_loaderTree args))))\<rparr>"

definition exampleHeap :: heap where
  "exampleHeap = \<lparr>store = (\<lambda>_. {}), nextAddr = 3\<rparr>"

definition exampleArgs :: "router_state option \<Rightarrow> walk_args" where
  "exampleArgs frs =
     \<lparr>parentParams = [],
      flightRouterState = frs,
      parentRendered = False,
      rscPayloadHead = Some (ReactNode ''head''),
      injectedCSS = 0,
      injectedJS = 1,
      injectedFontPreloadTags = 2,
      rootLayoutIncluded = False\<rparr>"

definition leafTree :: "string \<Rightarrow> loader_tree" where
  "leafTree s = LoaderTree s [] \<lparr>layout = None, loading = None\<rparr>"

definition leafState :: "string \<Rightarrow> router_state" where
  "leafState s = FlightRouterState (SegStr s) [] None None None"

text \<open>
  A root layout with two parallel routes: \<open>children\<close> is a page, the slot \<open>modal\<close>
  has no match and holds the default segment.
\<close>

definition slotTree :: loader_tree where
  "slotTree =
     LoaderTree '''' [(''children'', leafTree ''a''), (''modal'', leafTree ''__DEFAULT__'')]
       \<lparr>layout = Some ''app/layout'', loading = None\<rparr>"

text \<open>
  A router state for \<open>slotTree\<close> whose root matches and which has both parallel
  routes: the client shows page \<open>b\<close> where the server has \<open>a\<close>, and a matched
  \<open>modal\<close>.
\<close>

definition slotState :: router_state where
  "slotState =
     FlightRouterState (SegStr '''')
       [(''children'', leafState ''b''), (''modal'', leafState ''m'')] None None None"

text \<open>A renderer that throws a redirect error.\<close>

definition throwingCtx :: env where
  "throwingCtx =
     exampleCtx\<lparr>createComponentTree :=
       (\<lambda>args h. Inl (Thrown ''NEXT_REDIRECT;replace;/login;307;''))\<rparr>"

text \<open>
  Three levels, with layouts at the two upper ones, and a router state that matches
  them and differs at the page.
\<close>

definition deepTree :: loader_tree where
  "deepTree =
     LoaderTree ''''
       [(''children'',
         LoaderTree ''a'' [(''children'', leafTree ''b'')]
           \<lparr>layout = Some ''app/a/layout'', loading = None\<rparr>)]
       \<lparr>layout = Some ''app/layout'', loading = None\<rparr>"

definition deepState :: router_state where
  "deepState =
     FlightRouterState (SegStr '''')
       [(''children'',
         FlightRouterState (SegStr ''a'') [(''children'', leafState ''c'')] None None None)]
       None None None"




text \<open>
  A router state for \<open>slotTree\<close> that a client can send: the root matches, and there
  is no entry for the parallel route \<open>modal\<close>.
\<close>

definition missingSlotState :: router_state where
  "missingSlotState =
     FlightRouterState (SegStr '''') [(''children'', leafState ''a'')] None None None"





section \<open>Predicates on the asset sets\<close>

text \<open>The three set references of a call point to sets that exist in the heap.\<close>

definition liveSets :: "walk_args \<Rightarrow> heap \<Rightarrow> bool" where
  "liveSets a h =
     (injectedCSS a < nextAddr h \<and> injectedJS a < nextAddr h
      \<and> injectedFontPreloadTags a < nextAddr h)"

text \<open>The contract of the two asset collectors: they add to the sets they are given.\<close>

definition collectorsOnlyAdd :: "env \<Rightarrow> bool" where
  "collectorsOnlyAdd ctx =
     ((\<forall>p css js. css \<subseteq> fst (getLinkAndScriptTags ctx p css js)
                  \<and> js \<subseteq> snd (getLinkAndScriptTags ctx p css js))
      \<and> (\<forall>p fonts. fonts \<subseteq> getPreloadableFonts ctx p fonts))"

text \<open>Componentwise inclusion of the contents of the three sets.\<close>

definition subAssets ::
  "string set \<times> string set \<times> string set \<Rightarrow> string set \<times> string set \<times> string set \<Rightarrow> bool" where
  "subAssets x y =
     (fst x \<subseteq> fst y \<and> fst (snd x) \<subseteq> fst (snd y) \<and> snd (snd x) \<subseteq> snd (snd y))"

text \<open>The three set references a recorded call received.\<close>

definition callSets ::
  "loader_tree \<times> walk_args \<times> (string set \<times> string set \<times> string set) \<Rightarrow> addr \<times> addr \<times> addr" where
  "callSets c =
     (injectedCSS (fst (snd c)), injectedJS (fst (snd c)),
      injectedFontPreloadTags (fst (snd c)))"

text \<open>The contents of three sets in a heap.\<close>

definition contentsOf :: "addr \<times> addr \<times> addr \<Rightarrow> heap \<Rightarrow> string set \<times> string set \<times> string set" where
  "contentsOf sets h = (store h (fst sets), store h (fst (snd sets)), store h (snd (snd sets)))"

section \<open>Basic facts\<close>

lemma fst_entered [simp]: "fst (entered ev r) = fst r"
  and heap_entered [simp]: "fst (snd (entered ev r)) = fst (snd r)"
  and events_entered [simp]: "snd (snd (entered ev r)) = ev # snd (snd r)"
  by (simp_all add: entered_def)

lemmas example_defs =
  exampleCtx_def exampleHeap_def exampleArgs_def leafTree_def leafState_def slotTree_def

lemmas level_defs =
  renderComponentsOnThisLevel_def shouldSkipComponentTree_def actualSegment_def
  segmentParam_def overriddenSegment_def routerState_def currentParams_def
  parallelRoutesKeys_def renderArgs_def leafEmission_def assetContents_def

lemma renderComponentsOnThisLevel_iff:
  "renderComponentsOnThisLevel ctx t a \<longleftrightarrow>
     flightRouterState a = None
     \<or> (\<exists>frs. flightRouterState a = Some frs
            \<and> \<not> matchSegment ctx (actualSegment ctx t) (frs_segment frs))
     \<or> lt_parallelRoutes t = []
     \<or> (\<exists>frs. flightRouterState a = Some frs \<and> frs_refresh frs = Some ''refetch'')"
  by (auto simp add: renderComponentsOnThisLevel_def parallelRoutesKeys_def
      split: option.splits)

lemma walk_unfold:
  "walkTreeWithFlightRouterState ctx t a h =
     entered (WalkCall t a (assetContents a h))
       (if \<not> parentRendered a \<and> renderComponentsOnThisLevel ctx t a
        then leafEmission ctx t a h
        else walkParallelRoutes ctx (lt_parallelRoutes t) t a
               (fst (withCurrentLayout ctx t a h)) [] (snd (withCurrentLayout ctx t a h)))"
  by (cases t) simp


lemma fst_after [simp]: "fst (after evs r) = fst r"
  and heap_after [simp]: "fst (snd (after evs r)) = fst (snd r)"
  and events_after [simp]: "snd (snd (after evs r)) = evs @ snd (snd r)"
  by (simp_all add: after_def)

lemma walkCalls_append [simp]: "walkCalls (xs @ ys) = walkCalls xs @ walkCalls ys"
  by (induction xs rule: walkCalls.induct) simp_all

lemma renderCalls_append [simp]: "renderCalls (xs @ ys) = renderCalls xs @ renderCalls ys"
  by (induction xs rule: renderCalls.induct) simp_all


lemma nextAddr_withCurrentLayout:
  "nextAddr (snd (withCurrentLayout ctx t a h)) = nextAddr h + 3"
  by (simp add: withCurrentLayout_def newSet_def collectLayoutAssets_def Let_def
      split: option.splits prod.splits)


lemmas walk_eval =
  level_defs childArgs_def withCurrentLayout_def newSet_def collectLayoutAssets_def
  layoutPath_def startsWithDefault_def suppressDefault_def entered_def after_def
  rootLayoutIncludedAtThisLevelOrAbove_def rootLayoutAtThisLevel_def isLayout_def


lemma walk_leaf:
  "\<not> parentRendered a \<and> renderComponentsOnThisLevel ctx t a \<Longrightarrow>
     walkTreeWithFlightRouterState ctx t a h =
       entered (WalkCall t a (assetContents a h)) (leafEmission ctx t a h)"
  by (simp add: walk_unfold)

lemma walk_descend:
  "\<not> (\<not> parentRendered a \<and> renderComponentsOnThisLevel ctx t a) \<Longrightarrow>
     walkTreeWithFlightRouterState ctx t a h =
       entered (WalkCall t a (assetContents a h))
         (walkParallelRoutes ctx (lt_parallelRoutes t) t a
            (fst (withCurrentLayout ctx t a h)) [] (snd (withCurrentLayout ctx t a h)))"
  by (subst walk_unfold) (simp only: if_not_P if_False)

lemma renderCalls_last:
  "(r, x) \<in> set (renderCalls evs) \<Longrightarrow> evs \<noteq> []"
  by auto

lemma rootLayoutIncluded_childArgs:
  "rootLayoutIncluded (childArgs ctx t a sets k) = rootLayoutIncludedAtThisLevelOrAbove t a"
  by (simp add: childArgs_def)

lemma walkCalls_leafEmission:
  "walkCalls (snd (snd (leafEmission ctx t a h))) = []"
  by (simp add: leafEmission_def split: sum.splits)






section \<open>The render-here decision\<close>

text \<open>
  C1. When \<open>parentRendered\<close> is false, a call takes the leaf-emission branch exactly
  when the router-state slice is absent, or its own segment does not match
  \<open>actualSegment\<close>, or the node has no parallel routes, or its refetch marker is
  \<open>'refetch'\<close>; otherwise it descends into the parallel routes. In particular a
  slice with the refetch marker renders even when its segment matches, and a node
  without parallel routes always renders.
\<close>

theorem render_here_decision:
  assumes "\<not> parentRendered a"
  shows
    "(renderComponentsOnThisLevel ctx t a \<longleftrightarrow>
        flightRouterState a = None
        \<or> (\<exists>frs. flightRouterState a = Some frs
               \<and> \<not> matchSegment ctx (actualSegment ctx t) (frs_segment frs))
        \<or> lt_parallelRoutes t = []
        \<or> (\<exists>frs. flightRouterState a = Some frs \<and> frs_refresh frs = Some ''refetch''))
     \<and> walkTreeWithFlightRouterState ctx t a h =
         entered (WalkCall t a (assetContents a h))
           (if flightRouterState a = None
               \<or> (\<exists>frs. flightRouterState a = Some frs
                      \<and> \<not> matchSegment ctx (actualSegment ctx t) (frs_segment frs))
               \<or> lt_parallelRoutes t = []
               \<or> (\<exists>frs. flightRouterState a = Some frs \<and> frs_refresh frs = Some ''refetch'')
            then leafEmission ctx t a h
            else walkParallelRoutes ctx (lt_parallelRoutes t) t a
                   (fst (withCurrentLayout ctx t a h)) []
                   (snd (withCurrentLayout ctx t a h)))
     \<and> ((\<exists>frs. flightRouterState a = Some frs \<and> frs_refresh frs = Some ''refetch'')
          \<or> lt_parallelRoutes t = [] \<longrightarrow>
        walkTreeWithFlightRouterState ctx t a h =
          entered (WalkCall t a (assetContents a h)) (leafEmission ctx t a h))"
proof -
  have unfold: "walkTreeWithFlightRouterState ctx t a h =
      entered (WalkCall t a (assetContents a h))
        (if renderComponentsOnThisLevel ctx t a
         then leafEmission ctx t a h
         else walkParallelRoutes ctx (lt_parallelRoutes t) t a
                (fst (withCurrentLayout ctx t a h)) [] (snd (withCurrentLayout ctx t a h)))"
    using assms by (simp add: walk_unfold)
  show ?thesis
    unfolding unfold
    by (simp only: renderComponentsOnThisLevel_iff [of ctx t a]) auto
qed

theorem render_here_decision_witness:
  "\<not> parentRendered (exampleArgs (Some (FlightRouterState (SegStr '''') [] None (Some ''refetch'') None)))
   \<and> walkTreeWithFlightRouterState exampleCtx slotTree
       (exampleArgs (Some (FlightRouterState (SegStr '''') [] None (Some ''refetch'') None)))
       exampleHeap =
     (Inr [[PSegment (SegStr ''''),
            PRouterState (FlightRouterState (SegStr '''') [] None None None),
            PSeedData (Some (CacheNodeSeedData '''')),
            PHead (Some (ReactNode ''head'')),
            PBool False]],
      exampleHeap,
      [WalkCall slotTree
         (exampleArgs (Some (FlightRouterState (SegStr '''') [] None (Some ''refetch'') None)))
         ({}, {}, {}),
       RenderCall
         (renderArgs exampleCtx slotTree
            (exampleArgs (Some (FlightRouterState (SegStr '''') [] None (Some ''refetch'') None))))
         (Inr (CacheNodeSeedData ''''))])"
proof -
  let ?a = "exampleArgs (Some (FlightRouterState (SegStr '''') [] None (Some ''refetch'') None))"
  have np: "\<not> parentRendered ?a"
    by (simp add: exampleArgs_def)
  have refetch: "(\<exists>frs. flightRouterState ?a = Some frs \<and> frs_refresh frs = Some ''refetch'')
      \<or> lt_parallelRoutes slotTree = []"
    by (simp add: exampleArgs_def)
  from render_here_decision [OF np, of exampleCtx slotTree exampleHeap] refetch
  have "walkTreeWithFlightRouterState exampleCtx slotTree ?a exampleHeap =
      entered (WalkCall slotTree ?a (assetContents ?a exampleHeap))
        (leafEmission exampleCtx slotTree ?a exampleHeap)"
    by blast
  also have "\<dots> = (Inr [[PSegment (SegStr ''''),
            PRouterState (FlightRouterState (SegStr '''') [] None None None),
            PSeedData (Some (CacheNodeSeedData '''')),
            PHead (Some (ReactNode ''head'')),
            PBool False]],
      exampleHeap,
      [WalkCall slotTree ?a ({}, {}, {}),
       RenderCall (renderArgs exampleCtx slotTree ?a) (Inr (CacheNodeSeedData ''''))])"
    by (simp add: entered_def level_defs example_defs)
  finally show ?thesis using np by simp
qed

section \<open>The prefetch short circuit\<close>

text \<open>
  C2. \<open>shouldSkipComponentTree\<close> holds exactly when PPR is disabled and the request
  is either a route-tree prefetch or a prefetch with no \<open>loading\<close> module at the node
  and none in the tree below. When it holds at a level that renders (and
  \<open>parentRendered\<close> is false), the call returns the single path
  \<open>[overriddenSegment, routerState, null, null, false]\<close>, leaves the heap as it was,
  never calls the renderer and makes no recursive call.
\<close>

theorem prefetch_short_circuit:
  "(shouldSkipComponentTree ctx t \<longleftrightarrow>
      \<not> isRoutePPREnabled ctx
      \<and> (isRouteTreePrefetchRequest ctx
         \<or> (isPrefetch ctx \<and> loading (lt_modules t) = None
            \<and> \<not> hasLoadingComponentInTree ctx t)))
   \<and> (shouldSkipComponentTree ctx t \<and> renderComponentsOnThisLevel ctx t a
        \<and> \<not> parentRendered a \<longrightarrow>
      walkTreeWithFlightRouterState ctx t a h =
        (Inr [[PSegment (overriddenSegment ctx t a),
               PRouterState
                 (createFlightRouterStateFromLoaderTree ctx t
                    (getDynamicParamFromSegment ctx) (query ctx)),
               PSeedData None, PHead None, PBool False]],
         h,
         [WalkCall t a (assetContents a h)]))"
  by (simp add: walk_unfold leafEmission_def entered_def routerState_def
      shouldSkipComponentTree_def)

theorem prefetch_short_circuit_witness:
  "shouldSkipComponentTree (exampleCtx\<lparr>isPrefetch := True\<rparr>) slotTree
   \<and> renderComponentsOnThisLevel (exampleCtx\<lparr>isPrefetch := True\<rparr>) slotTree (exampleArgs None)
   \<and> \<not> parentRendered (exampleArgs None)
   \<and> walkTreeWithFlightRouterState (exampleCtx\<lparr>isPrefetch := True\<rparr>) slotTree
       (exampleArgs None) exampleHeap =
     (Inr [[PSegment (SegStr ''''),
            PRouterState (FlightRouterState (SegStr '''') [] None None None),
            PSeedData None, PHead None, PBool False]],
      exampleHeap,
      [WalkCall slotTree (exampleArgs None) ({}, {}, {})])"
proof -
  let ?ctx = "exampleCtx\<lparr>isPrefetch := True\<rparr>"
  have skip: "shouldSkipComponentTree ?ctx slotTree"
    by (simp add: shouldSkipComponentTree_def example_defs)
  have here: "renderComponentsOnThisLevel ?ctx slotTree (exampleArgs None)"
    by (simp add: renderComponentsOnThisLevel_def example_defs)
  have np: "\<not> parentRendered (exampleArgs None)"
    by (simp add: example_defs)
  from prefetch_short_circuit [of ?ctx slotTree "exampleArgs None" exampleHeap] skip here np
  have "walkTreeWithFlightRouterState ?ctx slotTree (exampleArgs None) exampleHeap =
        (Inr [[PSegment (overriddenSegment ?ctx slotTree (exampleArgs None)),
               PRouterState
                 (createFlightRouterStateFromLoaderTree ?ctx slotTree
                    (getDynamicParamFromSegment ?ctx) (query ?ctx)),
               PSeedData None, PHead None, PBool False]],
         exampleHeap,
         [WalkCall slotTree (exampleArgs None) (assetContents (exampleArgs None) exampleHeap)])"
    by blast
  also have "\<dots> = (Inr [[PSegment (SegStr ''''),
            PRouterState (FlightRouterState (SegStr '''') [] None None None),
            PSeedData None, PHead None, PBool False]],
      exampleHeap,
      [WalkCall slotTree (exampleArgs None) ({}, {}, {})])"
    by (simp add: level_defs example_defs)
  finally show ?thesis using skip here np by simp
qed

section \<open>Suppression of default routes\<close>




section \<open>The injected-asset sets\<close>

lemma sets_withCurrentLayout:
  "fst (withCurrentLayout ctx t a h) = (nextAddr h, nextAddr h + 1, nextAddr h + 2)"
  by (simp add: withCurrentLayout_def newSet_def Let_def)

lemma frame_withCurrentLayout:
  "x < nextAddr h \<Longrightarrow> store (snd (withCurrentLayout ctx t a h)) x = store h x"
  by (simp add: withCurrentLayout_def newSet_def collectLayoutAssets_def Let_def
      split: option.splits)

lemma contents_withCurrentLayout:
  assumes "liveSets a h"
  shows "contentsOf (fst (withCurrentLayout ctx t a h)) (snd (withCurrentLayout ctx t a h)) =
     (case layoutPath t of
        None \<Rightarrow> assetContents a h
      | Some p \<Rightarrow>
          if p = [] then assetContents a h
          else
            (fst (getLinkAndScriptTags ctx p (store h (injectedCSS a)) (store h (injectedJS a))),
             snd (getLinkAndScriptTags ctx p (store h (injectedCSS a)) (store h (injectedJS a))),
             getPreloadableFonts ctx p (store h (injectedFontPreloadTags a))))"
  using assms
  by (simp add: withCurrentLayout_def newSet_def collectLayoutAssets_def Let_def
      contentsOf_def assetContents_def liveSets_def split: option.splits)

lemma grows_withCurrentLayout:
  assumes "collectorsOnlyAdd ctx" and "liveSets a h"
  shows "subAssets (assetContents a h)
           (contentsOf (fst (withCurrentLayout ctx t a h)) (snd (withCurrentLayout ctx t a h)))"
  using assms(1)
  unfolding contents_withCurrentLayout [OF assms(2)]
  by (simp add: subAssets_def collectorsOnlyAdd_def assetContents_def split: option.splits)

lemma subAssets_refl [simp]: "subAssets x x"
  by (simp add: subAssets_def)

lemma subAssets_trans: "subAssets x y \<Longrightarrow> subAssets y z \<Longrightarrow> subAssets x z"
  by (auto simp add: subAssets_def)

lemma heap_leafEmission [simp]: "fst (snd (leafEmission ctx t a h)) = h"
  by (simp add: leafEmission_def split: sum.splits)

text \<open>A call allocates upwards and writes only to sets it allocated itself.\<close>

lemma frame_walk:
  "nextAddr h \<le> nextAddr (fst (snd (walkTreeWithFlightRouterState ctx t a h)))
   \<and> (\<forall>x < nextAddr h.
         store (fst (snd (walkTreeWithFlightRouterState ctx t a h))) x = store h x)"
  and frame_routes:
  "nextAddr h \<le> nextAddr (fst (snd (walkParallelRoutes ctx routes t a sets paths h)))
   \<and> (\<forall>x < nextAddr h.
         store (fst (snd (walkParallelRoutes ctx routes t a sets paths h))) x = store h x)"
proof (induction ctx t a h and ctx routes t a sets paths h
       rule: walkTreeWithFlightRouterState_walkParallelRoutes.induct)
  case (1 ctx segment parallelRoutes mods a h)
  let ?t = "LoaderTree segment parallelRoutes mods"
  show ?case
  proof (cases "\<not> parentRendered a \<and> renderComponentsOnThisLevel ctx ?t a")
    case True
    show ?thesis
      unfolding walk_leaf [OF True] by simp
  next
    case False
    from "1.IH" [OF False] show ?thesis
      unfolding walk_descend [OF False]
      by (simp add: nextAddr_withCurrentLayout frame_withCurrentLayout)
  qed
next
  case (2 ctx t a sets paths h)
  then show ?case by simp
next
  case (3 ctx parallelRouteKey parallelRoute rest t a sets paths h)
  let ?c = "childArgs ctx t a sets parallelRouteKey"
  obtain res h1 evs where w:
    "walkTreeWithFlightRouterState ctx parallelRoute ?c h = (res, h1, evs)"
    by (cases "walkTreeWithFlightRouterState ctx parallelRoute ?c h") auto
  from "3.IH"(1) w
  have child: "nextAddr h \<le> nextAddr h1 \<and> (\<forall>x < nextAddr h. store h1 x = store h x)"
    by simp
  show ?case
  proof (cases res)
    case (Inl e)
    with w child show ?thesis by simp
  next
    case (Inr subPaths)
    show ?thesis
    proof (cases "pushSubPaths ctx t a parallelRouteKey subPaths paths")
      case (Inl e)
      with w Inr child show ?thesis by simp
    next
      case push: (Inr paths1)
      from "3.IH"(2) [OF w [symmetric] Inr refl push] child
      show ?thesis
        by (auto simp add: w Inr push)
    qed
  qed
qed

lemma liveSets_childArgs:
  "liveSets (childArgs ctx t a sets k) h \<longleftrightarrow>
     fst sets < nextAddr h \<and> fst (snd sets) < nextAddr h \<and> snd (snd sets) < nextAddr h"
  by (simp add: liveSets_def childArgs_def)

lemma assetContents_childArgs:
  "assetContents (childArgs ctx t a sets k) h = contentsOf sets h"
  by (simp add: assetContents_def contentsOf_def childArgs_def)

text \<open>
  Every call below sees at least the assets of the call above it, in sets that are not
  older than the sets of that call.
\<close>

lemma assets_walk:
  "collectorsOnlyAdd ctx \<Longrightarrow> liveSets a h \<Longrightarrow>
   n0 \<le> injectedCSS a \<and> n0 \<le> injectedJS a \<and> n0 \<le> injectedFontPreloadTags a \<Longrightarrow>
     \<forall>c \<in> set (walkCalls (snd (snd (walkTreeWithFlightRouterState ctx t a h)))).
       subAssets (assetContents a h) (snd (snd c))
       \<and> n0 \<le> fst (callSets c) \<and> n0 \<le> fst (snd (callSets c))
       \<and> n0 \<le> snd (snd (callSets c))"
  and assets_routes:
  "collectorsOnlyAdd ctx \<Longrightarrow>
   fst sets < nextAddr h \<and> fst (snd sets) < nextAddr h \<and> snd (snd sets) < nextAddr h \<Longrightarrow>
   n0 \<le> fst sets \<and> n0 \<le> fst (snd sets) \<and> n0 \<le> snd (snd sets) \<Longrightarrow>
     \<forall>c \<in> set (walkCalls (snd (snd (walkParallelRoutes ctx routes t a sets paths h)))).
       subAssets (contentsOf sets h) (snd (snd c))
       \<and> n0 \<le> fst (callSets c) \<and> n0 \<le> fst (snd (callSets c))
       \<and> n0 \<le> snd (snd (callSets c))"
proof (induction ctx t a h and ctx routes t a sets paths h
       rule: walkTreeWithFlightRouterState_walkParallelRoutes.induct)
  case (1 ctx segment parallelRoutes mods a h)
  let ?t = "LoaderTree segment parallelRoutes mods"
  let ?sets = "fst (withCurrentLayout ctx ?t a h)"
  let ?h = "snd (withCurrentLayout ctx ?t a h)"
  have root: "subAssets (assetContents a h) (assetContents a h)
      \<and> n0 \<le> fst (callSets (?t, a, assetContents a h))
      \<and> n0 \<le> fst (snd (callSets (?t, a, assetContents a h)))
      \<and> n0 \<le> snd (snd (callSets (?t, a, assetContents a h)))"
    using "1.prems"(3) by (simp add: callSets_def)
  show ?case
  proof (cases "\<not> parentRendered a \<and> renderComponentsOnThisLevel ctx ?t a")
    case True
    show ?thesis
      unfolding walk_leaf [OF True] using root
      by (simp add: walkCalls_leafEmission)
  next
    case False
    have live: "fst ?sets < nextAddr ?h \<and> fst (snd ?sets) < nextAddr ?h
        \<and> snd (snd ?sets) < nextAddr ?h"
      by (simp add: sets_withCurrentLayout nextAddr_withCurrentLayout)
    have above: "n0 \<le> fst ?sets \<and> n0 \<le> fst (snd ?sets) \<and> n0 \<le> snd (snd ?sets)"
      using "1.prems"(2,3) by (simp add: sets_withCurrentLayout liveSets_def)
    note grows = grows_withCurrentLayout [OF "1.prems"(1,2), of ?t]
    from "1.IH" [OF False "1.prems"(1) live above]
    have "\<forall>c \<in> set (walkCalls (snd (snd (walkParallelRoutes ctx parallelRoutes ?t a ?sets []
        ?h)))).
       subAssets (assetContents a h) (snd (snd c))
       \<and> n0 \<le> fst (callSets c) \<and> n0 \<le> fst (snd (callSets c))
       \<and> n0 \<le> snd (snd (callSets c))"
      using subAssets_trans [OF grows] by blast
    with root show ?thesis
      unfolding walk_descend [OF False] by simp
  qed
next
  case (2 ctx t a sets paths h)
  then show ?case by simp
next
  case (3 ctx parallelRouteKey parallelRoute rest t a sets paths h)
  let ?c = "childArgs ctx t a sets parallelRouteKey"
  obtain res h1 evs where w:
    "walkTreeWithFlightRouterState ctx parallelRoute ?c h = (res, h1, evs)"
    by (cases "walkTreeWithFlightRouterState ctx parallelRoute ?c h") auto
  have live: "liveSets ?c h"
    using "3.prems"(2) by (simp add: liveSets_childArgs)
  have above: "n0 \<le> injectedCSS ?c \<and> n0 \<le> injectedJS ?c \<and> n0 \<le> injectedFontPreloadTags ?c"
    using "3.prems"(3) by (simp add: childArgs_def)
  from "3.IH"(1) [OF "3.prems"(1) live above] w
  have child: "\<forall>c \<in> set (walkCalls evs).
       subAssets (contentsOf sets h) (snd (snd c))
       \<and> n0 \<le> fst (callSets c) \<and> n0 \<le> fst (snd (callSets c))
       \<and> n0 \<le> snd (snd (callSets c))"
    by (simp add: assetContents_childArgs)
  from frame_walk [of h ctx parallelRoute ?c] w
  have frame: "nextAddr h \<le> nextAddr h1" "\<forall>x < nextAddr h. store h1 x = store h x"
    by simp_all
  have same: "contentsOf sets h1 = contentsOf sets h"
    using "3.prems"(2) frame(2) by (simp add: contentsOf_def)
  have live1: "fst sets < nextAddr h1 \<and> fst (snd sets) < nextAddr h1
      \<and> snd (snd sets) < nextAddr h1"
    using "3.prems"(2) frame(1) by simp
  show ?case
  proof (cases res)
    case (Inl e)
    with w child show ?thesis by simp
  next
    case (Inr subPaths)
    show ?thesis
    proof (cases "pushSubPaths ctx t a parallelRouteKey subPaths paths")
      case (Inl e)
      with w Inr child show ?thesis by simp
    next
      case push: (Inr paths1)
      from "3.IH"(2) [OF w [symmetric] Inr refl push "3.prems"(1) live1 "3.prems"(3)] child
      show ?thesis
        unfolding same by (auto simp add: w Inr push)
    qed
  qed
qed




section \<open>A router state without an entry for a parallel route\<close>

text \<open>
  C5. The claim is that the walk never fails on a router state that lacks the child
  for a parallel-route key of the loader tree. The recursive call does take the
  missing child as an absent router state, but the default-route check then reads
  \<open>flightRouterState[1][parallelRouteKey][0]\<close> of the missing child: for the slot tree
  and a router state without \<open>modal\<close>, both children render (the renderer returns
  both times), the sub-path of the slot starts with the default segment key, and the
  walk rejects with a \<open>TypeError\<close>.
\<close>

theorem missing_router_state_child_throws:
  "flightRouterState
     (childArgs exampleCtx slotTree (exampleArgs (Some missingSlotState)) (3, 4, 5) ''modal'')
     = None
   \<and> fst (walkTreeWithFlightRouterState exampleCtx slotTree
        (exampleArgs (Some missingSlotState)) exampleHeap) = Inl TypeError
   \<and> map snd (renderCalls (snd (snd (walkTreeWithFlightRouterState exampleCtx slotTree
        (exampleArgs (Some missingSlotState)) exampleHeap)))) =
       [Inr (CacheNodeSeedData ''a''), Inr (CacheNodeSeedData ''__DEFAULT__'')]"
  by (simp add: walk_eval example_defs missingSlotState_def)

section \<open>No router state: the whole tree is rendered\<close>

text \<open>
  C6. With no router-state slice, \<open>parentRendered\<close> false and no prefetch short
  circuit, a call whose renderer returns seed data returns exactly one path, the
  \<open>FlightDataSegment\<close> \<open>[actualSegment, routerState, seedData, rscPayloadHead,
  false]\<close>: the renderer is called once, on the whole slice, and the walk does not
  recurse.
\<close>

theorem no_router_state_renders_whole_tree:
  assumes "flightRouterState a = None"
    and "\<not> parentRendered a"
    and "\<not> shouldSkipComponentTree ctx t"
    and "createComponentTree ctx (renderArgs ctx t a) h = Inr seedData"
  shows "walkTreeWithFlightRouterState ctx t a h =
           (Inr [[PSegment (actualSegment ctx t),
                  PRouterState
                    (createFlightRouterStateFromLoaderTree ctx t
                       (getDynamicParamFromSegment ctx) (query ctx)),
                  PSeedData (Some seedData), PHead (rscPayloadHead a), PBool False]],
            h,
            [WalkCall t a (assetContents a h),
             RenderCall (renderArgs ctx t a) (Inr seedData)])
         \<and> cct_loaderTree (renderArgs ctx t a) = t"
  using assms
  by (simp add: walk_unfold leafEmission_def entered_def routerState_def
      renderComponentsOnThisLevel_def overriddenSegment_def renderArgs_def)

theorem no_router_state_renders_whole_tree_witness:
  "flightRouterState (exampleArgs None) = None
   \<and> \<not> parentRendered (exampleArgs None)
   \<and> \<not> shouldSkipComponentTree exampleCtx slotTree
   \<and> createComponentTree exampleCtx (renderArgs exampleCtx slotTree (exampleArgs None))
        exampleHeap = Inr (CacheNodeSeedData '''')
   \<and> fst (walkTreeWithFlightRouterState exampleCtx slotTree (exampleArgs None) exampleHeap) =
       Inr [[PSegment (SegStr ''''),
             PRouterState (FlightRouterState (SegStr '''') [] None None None),
             PSeedData (Some (CacheNodeSeedData '''')),
             PHead (Some (ReactNode ''head'')), PBool False]]
   \<and> renderCalls (snd (snd
         (walkTreeWithFlightRouterState exampleCtx slotTree (exampleArgs None) exampleHeap))) =
       [(renderArgs exampleCtx slotTree (exampleArgs None), Inr (CacheNodeSeedData ''''))]"
proof -
  have none: "flightRouterState (exampleArgs None) = None"
    by (simp add: example_defs)
  have np: "\<not> parentRendered (exampleArgs None)"
    by (simp add: example_defs)
  have ns: "\<not> shouldSkipComponentTree exampleCtx slotTree"
    by (simp add: shouldSkipComponentTree_def example_defs)
  have seed: "createComponentTree exampleCtx (renderArgs exampleCtx slotTree (exampleArgs None))
        exampleHeap = Inr (CacheNodeSeedData '''')"
    by (simp add: renderArgs_def example_defs)
  note w = no_router_state_renders_whole_tree [OF none np ns seed, THEN conjunct1]
  have "fst (walkTreeWithFlightRouterState exampleCtx slotTree (exampleArgs None) exampleHeap) =
       Inr [[PSegment (SegStr ''''),
             PRouterState (FlightRouterState (SegStr '''') [] None None None),
             PSeedData (Some (CacheNodeSeedData '''')),
             PHead (Some (ReactNode ''head'')), PBool False]]"
    unfolding w by (simp add: level_defs example_defs)
  moreover have "renderCalls (snd (snd
         (walkTreeWithFlightRouterState exampleCtx slotTree (exampleArgs None) exampleHeap))) =
       [(renderArgs exampleCtx slotTree (exampleArgs None), Inr (CacheNodeSeedData ''''))]"
    unfolding w by simp
  ultimately show ?thesis using none np ns seed by simp
qed

section \<open>The root-layout flag\<close>

lemma root_layout_walk:
  "rootLayoutIncluded a \<Longrightarrow>
     \<forall>c \<in> set (walkCalls (snd (snd (walkTreeWithFlightRouterState ctx t a h)))).
       rootLayoutIncluded (fst (snd c))"
  and root_layout_routes:
  "rootLayoutIncludedAtThisLevelOrAbove t a \<Longrightarrow>
     \<forall>c \<in> set (walkCalls (snd (snd (walkParallelRoutes ctx routes t a sets paths h)))).
       rootLayoutIncluded (fst (snd c))"
proof (induction ctx t a h and ctx routes t a sets paths h
       rule: walkTreeWithFlightRouterState_walkParallelRoutes.induct)
  case (1 ctx segment parallelRoutes mods a h)
  let ?t = "LoaderTree segment parallelRoutes mods"
  have above: "rootLayoutIncludedAtThisLevelOrAbove ?t a"
    using "1.prems" by (simp add: rootLayoutIncludedAtThisLevelOrAbove_def)
  show ?case
  proof (cases "\<not> parentRendered a \<and> renderComponentsOnThisLevel ctx ?t a")
    case True
    show ?thesis
      unfolding walk_leaf [OF True] using "1.prems"
      by (simp add: walkCalls_leafEmission)
  next
    case False
    from "1.IH" [OF False above] "1.prems" show ?thesis
      unfolding walk_descend [OF False] by simp
  qed
next
  case (2 ctx t a sets paths h)
  then show ?case by simp
next
  case (3 ctx parallelRouteKey parallelRoute rest t a sets paths h)
  let ?c = "childArgs ctx t a sets parallelRouteKey"
  obtain res h1 evs where w:
    "walkTreeWithFlightRouterState ctx parallelRoute ?c h = (res, h1, evs)"
    by (cases "walkTreeWithFlightRouterState ctx parallelRoute ?c h") auto
  have "rootLayoutIncluded ?c"
    using "3.prems" by (simp add: rootLayoutIncluded_childArgs)
  from "3.IH"(1) [OF this] w
  have child: "\<forall>c \<in> set (walkCalls evs). rootLayoutIncluded (fst (snd c))"
    by simp
  show ?case
  proof (cases res)
    case (Inl e)
    with w child show ?thesis by simp
  next
    case (Inr subPaths)
    show ?thesis
    proof (cases "pushSubPaths ctx t a parallelRouteKey subPaths paths")
      case (Inl e)
      with w Inr child show ?thesis by simp
    next
      case push: (Inr paths1)
      from "3.IH"(2) [OF w [symmetric] Inr refl push "3.prems"] child
      show ?thesis
        by (auto simp add: w Inr push)
    qed
  qed
qed

text \<open>
  C7. Every recursive call is given \<open>rootLayoutIncluded\<close> or-ed with "this level has a
  layout and \<open>rootLayoutIncluded\<close> was false". So once the flag is true in a call it
  is true in every call made below it, and below a level that has a layout it is true
  in every call.
\<close>

theorem root_layout_included_monotone:
  "rootLayoutIncluded (childArgs ctx t a sets parallelRouteKey) =
     (rootLayoutIncluded a \<or> (isLayout t \<and> \<not> rootLayoutIncluded a))
   \<and> (rootLayoutIncluded a \<longrightarrow>
        (\<forall>c \<in> set (walkCalls (snd (snd (walkTreeWithFlightRouterState ctx t a h)))).
           rootLayoutIncluded (fst (snd c))))
   \<and> (rootLayoutIncluded a \<or> isLayout t \<longrightarrow>
        (\<forall>c \<in> set (tl (walkCalls (snd (snd (walkTreeWithFlightRouterState ctx t a h))))).
           rootLayoutIncluded (fst (snd c))))"
proof (intro conjI impI)
  show "rootLayoutIncluded (childArgs ctx t a sets parallelRouteKey) =
     (rootLayoutIncluded a \<or> (isLayout t \<and> \<not> rootLayoutIncluded a))"
    by (simp add: childArgs_def rootLayoutIncludedAtThisLevelOrAbove_def
        rootLayoutAtThisLevel_def)
next
  assume "rootLayoutIncluded a"
  then show "\<forall>c \<in> set (walkCalls (snd (snd (walkTreeWithFlightRouterState ctx t a h)))).
           rootLayoutIncluded (fst (snd c))"
    by (rule root_layout_walk)
next
  assume "rootLayoutIncluded a \<or> isLayout t"
  then have above: "rootLayoutIncludedAtThisLevelOrAbove t a"
    by (auto simp add: rootLayoutIncludedAtThisLevelOrAbove_def rootLayoutAtThisLevel_def)
  show "\<forall>c \<in> set (tl (walkCalls (snd (snd (walkTreeWithFlightRouterState ctx t a h))))).
           rootLayoutIncluded (fst (snd c))"
  proof (cases "\<not> parentRendered a \<and> renderComponentsOnThisLevel ctx t a")
    case True
    show ?thesis
      unfolding walk_leaf [OF True] by (simp add: walkCalls_leafEmission)
  next
    case False
    from root_layout_routes [OF above] show ?thesis
      unfolding walk_descend [OF False] by simp
  qed
qed

theorem root_layout_included_monotone_witness:
  "isLayout deepTree
   \<and> list_all (\<lambda>c. rootLayoutIncluded (fst (snd c)))
       (tl (walkCalls (snd (snd (walkTreeWithFlightRouterState exampleCtx deepTree
          (exampleArgs (Some deepState)) exampleHeap)))))
   \<and> map fst (walkCalls (snd (snd (walkTreeWithFlightRouterState exampleCtx deepTree
          (exampleArgs (Some deepState)) exampleHeap)))) = subtrees deepTree
   \<and> length (subtrees deepTree) = 3
   \<and> \<not> rootLayoutIncluded (exampleArgs (Some deepState))
   \<and> rootLayoutIncluded (exampleArgs (Some slotState)\<lparr>rootLayoutIncluded := True\<rparr>)
   \<and> list_all (\<lambda>c. rootLayoutIncluded (fst (snd c)))
       (walkCalls (snd (snd (walkTreeWithFlightRouterState exampleCtx slotTree
          (exampleArgs (Some slotState)\<lparr>rootLayoutIncluded := True\<rparr>) exampleHeap))))
   \<and> length (walkCalls (snd (snd (walkTreeWithFlightRouterState exampleCtx slotTree
          (exampleArgs (Some slotState)\<lparr>rootLayoutIncluded := True\<rparr>) exampleHeap)))) = 3"
proof -
  let ?b = "exampleArgs (Some slotState)\<lparr>rootLayoutIncluded := True\<rparr>"
  let ?v = "walkTreeWithFlightRouterState exampleCtx slotTree ?b exampleHeap"
  have flag: "rootLayoutIncluded ?b"
    by simp
  with root_layout_included_monotone
    [of exampleCtx slotTree ?b "(0, 0, 0)" "''children''" exampleHeap]
  have "\<forall>c \<in> set (walkCalls (snd (snd ?v))). rootLayoutIncluded (fst (snd c))"
    by blast
  then have below: "list_all (\<lambda>c. rootLayoutIncluded (fst (snd c))) (walkCalls (snd (snd ?v)))"
    by (simp add: list_all_iff)
  have calls: "length (walkCalls (snd (snd ?v))) = 3"
    by (simp add: walk_eval example_defs slotState_def)
  let ?w = "walkTreeWithFlightRouterState exampleCtx deepTree
          (exampleArgs (Some deepState)) exampleHeap"
  have lay: "isLayout deepTree"
    by (simp add: isLayout_def deepTree_def)
  then have "rootLayoutIncluded (exampleArgs (Some deepState)) \<or> isLayout deepTree" ..
  with root_layout_included_monotone
    [of exampleCtx deepTree "exampleArgs (Some deepState)" "(0, 0, 0)" "''children''" exampleHeap]
  have "\<forall>c \<in> set (tl (walkCalls (snd (snd ?w)))). rootLayoutIncluded (fst (snd c))"
    by blast
  then have all: "list_all (\<lambda>c. rootLayoutIncluded (fst (snd c))) (tl (walkCalls (snd (snd ?w))))"
    by (simp add: list_all_iff)
  have visited: "map fst (walkCalls (snd (snd ?w))) = subtrees deepTree"
    by (simp add: walk_eval example_defs deepTree_def deepState_def)
  have three: "length (subtrees deepTree) = 3"
    by (simp add: deepTree_def leafTree_def)
  have "\<not> rootLayoutIncluded (exampleArgs (Some deepState))"
    by (simp add: exampleArgs_def)
  with lay all visited three flag below calls show ?thesis by simp
qed

section \<open>The params bag\<close>






section \<open>Failures of the renderer\<close>

lemma leafEmission_failure:
  "(r, Inl e) \<in> set (renderCalls (snd (snd (leafEmission ctx t a h)))) \<Longrightarrow>
     fst (leafEmission ctx t a h) = Inl e
     \<and> snd (snd (leafEmission ctx t a h)) = [RenderCall r (Inl e)]"
  by (auto simp add: leafEmission_def split: if_splits sum.splits)

lemma failure_walk:
  "(r, Inl e) \<in> set (renderCalls (snd (snd (walkTreeWithFlightRouterState ctx t a h)))) \<Longrightarrow>
     fst (walkTreeWithFlightRouterState ctx t a h) = Inl e
     \<and> last (snd (snd (walkTreeWithFlightRouterState ctx t a h))) = RenderCall r (Inl e)"
  and failure_routes:
  "(r, Inl e) \<in> set (renderCalls (snd (snd (walkParallelRoutes ctx routes t a sets paths h)))) \<Longrightarrow>
     fst (walkParallelRoutes ctx routes t a sets paths h) = Inl e
     \<and> last (snd (snd (walkParallelRoutes ctx routes t a sets paths h))) = RenderCall r (Inl e)"
proof (induction ctx t a h and ctx routes t a sets paths h
       rule: walkTreeWithFlightRouterState_walkParallelRoutes.induct)
  case (1 ctx segment parallelRoutes mods a h)
  let ?t = "LoaderTree segment parallelRoutes mods"
  show ?case
  proof (cases "\<not> parentRendered a \<and> renderComponentsOnThisLevel ctx ?t a")
    case True
    note eq = walk_leaf [OF True, of h]
    from "1.prems" [unfolded eq]
    have "(r, Inl e) \<in> set (renderCalls (snd (snd (leafEmission ctx ?t a h))))"
      by simp
    from leafEmission_failure [OF this] show ?thesis
      unfolding eq by simp
  next
    case False
    let ?loop = "walkParallelRoutes ctx parallelRoutes ?t a
        (fst (withCurrentLayout ctx ?t a h)) [] (snd (withCurrentLayout ctx ?t a h))"
    have eq: "walkTreeWithFlightRouterState ctx ?t a h =
        entered (WalkCall ?t a (assetContents a h)) ?loop"
      using walk_descend [OF False, of h] by simp
    from "1.prems" [unfolded eq]
    have mem: "(r, Inl e) \<in> set (renderCalls (snd (snd ?loop)))"
      by simp
    from "1.IH" [OF False mem] renderCalls_last [OF mem] show ?thesis
      unfolding eq by simp
  qed
next
  case (2 ctx t a sets paths h)
  then show ?case by simp
next
  case (3 ctx parallelRouteKey parallelRoute rest t a sets paths h)
  let ?c = "childArgs ctx t a sets parallelRouteKey"
  obtain res h1 evs where w:
    "walkTreeWithFlightRouterState ctx parallelRoute ?c h = (res, h1, evs)"
    by (cases "walkTreeWithFlightRouterState ctx parallelRoute ?c h") auto
  have child: "(r, Inl e) \<in> set (renderCalls evs) \<Longrightarrow>
      res = Inl e \<and> last evs = RenderCall r (Inl e)"
    using "3.IH"(1) w by simp
  show ?case
  proof (cases res)
    case (Inl e')
    with "3.prems" w child show ?thesis by simp
  next
    case (Inr subPaths)
    with child have nofail: "(r, Inl e) \<notin> set (renderCalls evs)" by auto
    show ?thesis
    proof (cases "pushSubPaths ctx t a parallelRouteKey subPaths paths")
      case (Inl e')
      with "3.prems" w Inr nofail show ?thesis by simp
    next
      case push: (Inr paths1)
      let ?rest = "walkParallelRoutes ctx rest t a sets paths1 h1"
      from "3.prems" w Inr push nofail
      have mem: "(r, Inl e) \<in> set (renderCalls (snd (snd ?rest)))"
        by simp
      from "3.IH"(2) [OF w [symmetric] Inr refl push mem] renderCalls_last [OF mem]
      show ?thesis
        by (simp add: w Inr push)
    qed
  qed
qed

text \<open>
  C9. The walk catches nothing and retries nothing. When the renderer throws at a
  level that renders, that call rejects with the thrown error; and whenever any
  renderer call made during a call of the walk throws, the walk rejects with exactly
  that error and the failed renderer call is the last thing it did: no path list is
  returned, no further sibling is walked, and the renderer is not called again.
\<close>

theorem renderer_failure_propagates:
  "(createComponentTree ctx (renderArgs ctx t a) h = Inl e
      \<and> \<not> parentRendered a \<and> renderComponentsOnThisLevel ctx t a
      \<and> \<not> shouldSkipComponentTree ctx t \<longrightarrow>
    walkTreeWithFlightRouterState ctx t a h =
      (Inl e, h, [WalkCall t a (assetContents a h), RenderCall (renderArgs ctx t a) (Inl e)]))
   \<and> (\<forall>call \<in> set (renderCalls (snd (snd (walkTreeWithFlightRouterState ctx t a h)))).
        \<forall>e. snd call = Inl e \<longrightarrow>
          fst (walkTreeWithFlightRouterState ctx t a h) = Inl e
          \<and> last (snd (snd (walkTreeWithFlightRouterState ctx t a h))) =
              RenderCall (fst call) (Inl e))"
proof (intro conjI ballI allI impI)
  assume "createComponentTree ctx (renderArgs ctx t a) h = Inl e
      \<and> \<not> parentRendered a \<and> renderComponentsOnThisLevel ctx t a
      \<and> \<not> shouldSkipComponentTree ctx t"
  then show "walkTreeWithFlightRouterState ctx t a h =
      (Inl e, h, [WalkCall t a (assetContents a h), RenderCall (renderArgs ctx t a) (Inl e)])"
    by (simp add: walk_unfold leafEmission_def entered_def)
next
  fix call e
  assume "call \<in> set (renderCalls (snd (snd (walkTreeWithFlightRouterState ctx t a h))))"
    and "snd call = Inl e"
  then have "(fst call, Inl e) \<in>
      set (renderCalls (snd (snd (walkTreeWithFlightRouterState ctx t a h))))"
    by (metis prod.collapse)
  from failure_walk [OF this]
  show "fst (walkTreeWithFlightRouterState ctx t a h) = Inl e"
    and "last (snd (snd (walkTreeWithFlightRouterState ctx t a h))) =
              RenderCall (fst call) (Inl e)"
    by simp_all
qed

theorem renderer_failure_propagates_witness:
  "renderCalls (snd (snd
      (walkTreeWithFlightRouterState throwingCtx slotTree (exampleArgs (Some slotState))
         exampleHeap))) =
     [(renderArgs throwingCtx (leafTree ''a'')
         (childArgs throwingCtx slotTree (exampleArgs (Some slotState)) (3, 4, 5) ''children''),
       Inl (Thrown ''NEXT_REDIRECT;replace;/login;307;''))]
   \<and> fst (walkTreeWithFlightRouterState throwingCtx slotTree (exampleArgs (Some slotState))
         exampleHeap) = Inl (Thrown ''NEXT_REDIRECT;replace;/login;307;'')
   \<and> map fst (walkCalls (snd (snd
      (walkTreeWithFlightRouterState throwingCtx slotTree (exampleArgs (Some slotState))
         exampleHeap)))) = [slotTree, leafTree ''a'']
   \<and> createComponentTree throwingCtx
        (renderArgs throwingCtx (leafTree ''a'') (exampleArgs None)) exampleHeap =
       Inl (Thrown ''NEXT_REDIRECT;replace;/login;307;'')
   \<and> walkTreeWithFlightRouterState throwingCtx (leafTree ''a'') (exampleArgs None) exampleHeap =
       (Inl (Thrown ''NEXT_REDIRECT;replace;/login;307;''), exampleHeap,
        [WalkCall (leafTree ''a'') (exampleArgs None)
           (assetContents (exampleArgs None) exampleHeap),
         RenderCall (renderArgs throwingCtx (leafTree ''a'') (exampleArgs None))
           (Inl (Thrown ''NEXT_REDIRECT;replace;/login;307;''))])"
proof -
  have throws: "createComponentTree throwingCtx
        (renderArgs throwingCtx (leafTree ''a'') (exampleArgs None)) exampleHeap =
       Inl (Thrown ''NEXT_REDIRECT;replace;/login;307;'')"
    by (simp add: throwingCtx_def)
  have here: "\<not> parentRendered (exampleArgs None)
      \<and> renderComponentsOnThisLevel throwingCtx (leafTree ''a'') (exampleArgs None)
      \<and> \<not> shouldSkipComponentTree throwingCtx (leafTree ''a'')"
    by (simp add: renderComponentsOnThisLevel_def shouldSkipComponentTree_def
        throwingCtx_def example_defs)
  from renderer_failure_propagates
    [of throwingCtx "leafTree ''a''" "exampleArgs None" exampleHeap
       "Thrown ''NEXT_REDIRECT;replace;/login;307;''", THEN conjunct1] throws here
  have leaf: "walkTreeWithFlightRouterState throwingCtx (leafTree ''a'') (exampleArgs None)
      exampleHeap =
       (Inl (Thrown ''NEXT_REDIRECT;replace;/login;307;''), exampleHeap,
        [WalkCall (leafTree ''a'') (exampleArgs None)
           (assetContents (exampleArgs None) exampleHeap),
         RenderCall (renderArgs throwingCtx (leafTree ''a'') (exampleArgs None))
           (Inl (Thrown ''NEXT_REDIRECT;replace;/login;307;''))])"
    by blast
  let ?w = "walkTreeWithFlightRouterState throwingCtx slotTree (exampleArgs (Some slotState))
         exampleHeap"
  let ?call = "(renderArgs throwingCtx (leafTree ''a'')
         (childArgs throwingCtx slotTree (exampleArgs (Some slotState)) (3, 4, 5) ''children''),
       Inl (Thrown ''NEXT_REDIRECT;replace;/login;307;'') :: error + seed_data)"
  have calls: "renderCalls (snd (snd ?w)) = [?call]"
    by (simp add: walk_eval example_defs throwingCtx_def slotState_def)
  have visited: "map fst (walkCalls (snd (snd ?w))) = [slotTree, leafTree ''a'']"
    by (simp add: walk_eval example_defs throwingCtx_def slotState_def)
  have mem: "?call \<in> set (renderCalls (snd (snd ?w)))"
    unfolding calls by simp
  from renderer_failure_propagates
    [of throwingCtx slotTree "exampleArgs (Some slotState)" exampleHeap, THEN conjunct2,
     THEN bspec, OF mem, THEN spec, of "Thrown ''NEXT_REDIRECT;replace;/login;307;''"]
  have "fst ?w = Inl (Thrown ''NEXT_REDIRECT;replace;/login;307;'')"
    by simp
  with calls visited throws leaf show ?thesis by simp
qed

section \<open>A level below a rendered parent\<close>




end
